theory Spec2Isabelle
  imports Main
begin

section \<open>The link validator \<^verbatim>\<open>scripts/validate-links.js\<close>\<close>

text \<open>
  The script builds one URL per galaxy record, resolves it over HTTP (HEAD first, GET as a
  fallback, redirects followed up to a limit), gates the resolutions through a concurrency
  limiter and a start-time throttle, and turns the verdicts into an exit status.

  JavaScript strings are modelled as \<^typ>\<open>string\<close>. The only operations the script applies
  to the characters of a name are a comparison with the space character and a copy, so the
  width of a character does not matter. A name that is \<^verbatim>\<open>null\<close>, \<^verbatim>\<open>undefined\<close> or missing is
  \<^term>\<open>None\<close>. The tunables (\<^verbatim>\<open>MAX_REDIRECTS\<close>, \<^verbatim>\<open>BATCH_SIZE\<close>, \<^verbatim>\<open>MAX_CONCURRENCY\<close>,
  \<^verbatim>\<open>MIN_START_INTERVAL_MS\<close>) are integers, as \<^verbatim>\<open>parseInt\<close> gives for a numeric setting; they
  are parameters of the functions that read them.
\<close>

subsection \<open>URL builder\<close>

definition BASE :: string where
  "BASE = ''https://nomanssky.fandom.com/wiki/''"

text \<open>\<^verbatim>\<open>name || ''\<close>: a falsy name (absent or the empty string) is replaced by the empty string.\<close>

definition or_empty :: "string option \<Rightarrow> string" where
  "or_empty name = (case name of None \<Rightarrow> [] | Some n \<Rightarrow> (if n = [] then [] else n))"

text \<open>
  \<^verbatim>\<open>s.split(sep)\<close> for a separator of one character: the pieces between the occurrences
  of the separator; the empty string gives one empty piece.
\<close>

fun split_js :: "'a \<Rightarrow> 'a list \<Rightarrow> 'a list list" where
  "split_js sep [] = [[]]"
| "split_js sep (c # cs) =
     (if c = sep then [] # split_js sep cs
      else (case split_js sep cs of
              [] \<Rightarrow> [[c]]
            | p # ps \<Rightarrow> (c # p) # ps))"

text \<open>\<^verbatim>\<open>pieces.join(glue)\<close>.\<close>

fun join_js :: "'a list \<Rightarrow> 'a list list \<Rightarrow> 'a list" where
  "join_js glue [] = []"
| "join_js glue [p] = p"
| "join_js glue (p # q # ps) = p @ glue @ join_js glue (q # ps)"

text \<open>
  \<^verbatim>\<open>
  function buildUrlFromName(name) {
    const suffix = (name || '').split(' ').join('_');
    return BASE + suffix;
  }
  \<close>
\<close>

definition buildUrlFromName :: "string option \<Rightarrow> string" where
  "buildUrlFromName name =
     (let suffix = join_js ''_'' (split_js (CHR '' '') (or_empty name))
      in BASE @ suffix)"

text \<open>The spec's wording of the rule: every space character replaced by an underscore.\<close>

definition spaces_to_underscores :: "string \<Rightarrow> string" where
  "spaces_to_underscores n = map (\<lambda>c. if c = CHR '' '' then CHR ''_'' else c) n"

subsection \<open>Redirect and method resolver\<close>

datatype http_method = HEAD | GET

text \<open>
  What \<^verbatim>\<open>requestOnce\<close> resolves to: \<^verbatim>\<open>{ ok: false, error }\<close> with the error's message
  (\<^term>\<open>None\<close> when there is none), or \<^verbatim>\<open>{ ok: true, statusCode, headers }\<close> with the
  status code and the \<^verbatim>\<open>location\<close> header (\<^term>\<open>None\<close> when the header is absent).
  Its promise is only ever resolved, with one of the two; a timeout is an error with the
  message \<^verbatim>\<open>timeout\<close>.
\<close>

datatype response =
    Failed "string option"
  | Response nat "string option"

text \<open>The object \<^verbatim>\<open>checkUrl\<close> returns: \<^verbatim>\<open>{ url, valid, reason }\<close>, the reason only when invalid.\<close>

record probe_result =
  url :: string
  valid :: bool
  reason :: "string option"

text \<open>The loop variables of \<^verbatim>\<open>checkUrl\<close>: \<^verbatim>\<open>currentUrl\<close>, \<^verbatim>\<open>redirects\<close> and \<^verbatim>\<open>method\<close>.\<close>

record hop =
  currentUrl :: string
  redirects :: int
  meth :: http_method

datatype step = Return probe_result | Continue hop

text \<open>Decimal digits of a number, for the template \<^verbatim>\<open>`HTTP ${status}`\<close>.\<close>

fun string_of_nat :: "nat \<Rightarrow> string" where
  "string_of_nat n =
     (if n < 10 then [''0123456789'' ! n]
      else string_of_nat (n div 10) @ [''0123456789'' ! (n mod 10)])"

declare string_of_nat.simps [simp del]

text \<open>\<^verbatim>\<open>last.error?.message || 'request failed'\<close>.\<close>

definition error_reason :: "string option \<Rightarrow> string" where
  "error_reason msg =
     (case msg of None \<Rightarrow> ''request failed''
      | Some m \<Rightarrow> (if m = [] then ''request failed'' else m))"

text \<open>
  One pass through the body of the \<^verbatim>\<open>while\<close> loop, after the request has resolved to
  \<open>lastR\<close> (the variable \<^verbatim>\<open>last\<close>). The first argument is \<^verbatim>\<open>new URL(loc, currentUrl).toString()\<close>, a function of the
  platform: \<^term>\<open>None\<close> when the constructor throws. An empty \<^verbatim>\<open>location\<close> header is falsy
  and counts as absent.
  \<^verbatim>\<open>
    if (!last.ok) return { url: currentUrl, valid: false, reason: last.error?.message || 'request failed' };
    const status = last.statusCode;
    if (status >= 200 && status < 300) return { url: currentUrl, valid: true };
    if (status === 405 || status === 403) {
      if (method === 'HEAD') { method = 'GET'; continue; }
    }
    if (status >= 300 && status < 400 && last.headers && last.headers.location) {
      const loc = last.headers.location;
      try { currentUrl = new URL(loc, currentUrl).toString(); }
      catch { return { url: currentUrl, valid: false, reason: 'invalid redirect location' }; }
      redirects++;
      method = 'HEAD';
      continue;
    }
    return { url: currentUrl, valid: false, reason: `HTTP ${status}` };
  \<close>
\<close>

definition loop_body :: "(string \<Rightarrow> string \<Rightarrow> string option) \<Rightarrow> response \<Rightarrow> hop \<Rightarrow> step" where
  "loop_body resolve lastR s =
     (case lastR of
        Failed msg \<Rightarrow>
          Return \<lparr>url = currentUrl s, valid = False, reason = Some (error_reason msg)\<rparr>
      | Response status location \<Rightarrow>
          if 200 \<le> status \<and> status < 300 then
            Return \<lparr>url = currentUrl s, valid = True, reason = None\<rparr>
          else if (status = 405 \<or> status = 403) \<and> meth s = HEAD then
            Continue (s\<lparr>meth := GET\<rparr>)
          else if 300 \<le> status \<and> status < 400 \<and> or_empty location \<noteq> [] then
            (case resolve (or_empty location) (currentUrl s) of
               None \<Rightarrow>
                 Return \<lparr>url = currentUrl s, valid = False,
                         reason = Some ''invalid redirect location''\<rparr>
             | Some u \<Rightarrow>
                 Continue \<lparr>currentUrl = u, redirects = redirects s + 1, meth = HEAD\<rparr>)
          else
            Return \<lparr>url = currentUrl s, valid = False,
                    reason = Some (''HTTP '' @ string_of_nat status)\<rparr>)"

text \<open>
  What one call of \<^verbatim>\<open>checkUrl\<close> leaves behind: the object it returns, the loop variables
  at the moment it returns, and the requests it issued, each recorded as the loop variables
  it was issued with, in order.
\<close>

record resolution =
  verdict :: probe_result
  final :: hop
  probed :: "hop list"

text \<open>
  The loop. The network is a function \<open>net\<close>: the response of the \<open>n\<close>-th request of this
  resolution, given the URL and the method it is issued with. \<open>maxR\<close> is \<^verbatim>\<open>MAX_REDIRECTS\<close>.
  \<^verbatim>\<open>
    while (redirects <= MAX_REDIRECTS) {
      last = await requestOnce(currentUrl, { method });
      ...
    }
    return { url: currentUrl, valid: false, reason: 'too many redirects' };
  \<close>
\<close>

function checkUrl_loop ::
  "(string \<Rightarrow> string \<Rightarrow> string option) \<Rightarrow> (nat \<Rightarrow> string \<Rightarrow> http_method \<Rightarrow> response)
     \<Rightarrow> int \<Rightarrow> nat \<Rightarrow> hop \<Rightarrow> resolution" where
  "checkUrl_loop resolve net maxR n s =
     (if redirects s \<le> maxR then
        (case loop_body resolve (net n (currentUrl s) (meth s)) s of
           Return r \<Rightarrow> \<lparr>verdict = r, final = s, probed = [s]\<rparr>
         | Continue s' \<Rightarrow>
             (let out = checkUrl_loop resolve net maxR (Suc n) s'
              in out\<lparr>probed := s # probed out\<rparr>))
      else
        \<lparr>verdict = \<lparr>url = currentUrl s, valid = False, reason = Some ''too many redirects''\<rparr>,
         final = s, probed = []\<rparr>)"
  by pat_completeness auto

lemma loop_body_Continue:
  assumes "loop_body resolve lastR s = Continue s'"
  shows "(redirects s' = redirects s \<and> meth s = HEAD \<and> meth s' = GET)
       \<or> (redirects s' = redirects s + 1 \<and> meth s' = HEAD)"
  using assms
  by (auto simp: loop_body_def split: response.splits if_splits option.splits)

termination checkUrl_loop
proof (relation "measure (\<lambda>(resolve, net, maxR, n, s).
          2 * nat (maxR + 1 - redirects s) + (if meth s = HEAD then 1 else 0))")
  show "wf (measure (\<lambda>(resolve, net, maxR, n, s).
          2 * nat (maxR + 1 - redirects s) + (if meth s = HEAD then 1 else 0)))"
    by simp
next
  fix resolve :: "string \<Rightarrow> string \<Rightarrow> string option"
    and net :: "nat \<Rightarrow> string \<Rightarrow> http_method \<Rightarrow> response"
    and maxR :: int and n :: nat and s s' :: hop
  assume le: "redirects s \<le> maxR"
    and c: "loop_body resolve (net n (currentUrl s) (meth s)) s = Continue s'"
  from loop_body_Continue [OF c] le
  show "((resolve, net, maxR, Suc n, s'), (resolve, net, maxR, n, s))
        \<in> measure (\<lambda>(resolve, net, maxR, n, s).
             2 * nat (maxR + 1 - redirects s) + (if meth s = HEAD then 1 else 0))"
    by (auto simp: nat_diff_distrib)
qed

declare checkUrl_loop.simps [simp del]

text \<open>
  \<^verbatim>\<open>
  async function checkUrl(url) {
    let currentUrl = url;
    let redirects = 0;
    let last = null;
    let method = 'HEAD';
    ...
  \<close>
\<close>

definition checkUrl ::
  "(string \<Rightarrow> string \<Rightarrow> string option) \<Rightarrow> (nat \<Rightarrow> string \<Rightarrow> http_method \<Rightarrow> response)
     \<Rightarrow> int \<Rightarrow> string \<Rightarrow> resolution" where
  "checkUrl resolve net maxR u =
     checkUrl_loop resolve net maxR 0 \<lparr>currentUrl = u, redirects = 0, meth = HEAD\<rparr>"

subsection \<open>Concurrency limiter\<close>









subsection \<open>Start-time throttle\<close>

text \<open>
  \<^verbatim>\<open>
  function makeStartThrottler(minIntervalMs) {
    let lastStart = 0;
    let chain = Promise.resolve();
    return function waitForTurn() {
      chain = chain.then(async () => {
        const now = Date.now();
        const wait = Math.max(0, lastStart + minIntervalMs - now);
        if (wait > 0) {
          const jitter = Math.floor(Math.random() * 50);
          await sleep(wait + jitter);
        }
        lastStart = Date.now();
      });
      return chain;
    };
  }
  \<close>
  Time is the reading of \<^verbatim>\<open>Date.now()\<close>, in milliseconds; it is a field of the state, and it
  only moves forward. \<open>lastStart\<close> is the variable of the closure. \<open>chain\<close> lists the callers
  whose link of the promise chain has not finished yet, first link first: each call of
  \<^verbatim>\<open>waitForTurn\<close> hangs its link behind the last one, and a link starts when the one before
  it has finished. \<open>sleeping\<close> is the time at which the timer of the first link is due,
  while that link awaits \<^verbatim>\<open>sleep\<close>. \<open>granted\<close> is the log of the turns given: the caller and
  the value written to \<^verbatim>\<open>lastStart\<close>.
\<close>

record 'c throttle =
  clock :: int
  lastStart :: int
  chain :: "'c list"
  sleeping :: "int option"
  granted :: "('c \<times> int) list"






subsection \<open>Batch scheduler, aggregation and exit status\<close>

text \<open>A record of the dataset: \<^verbatim>\<open>g.id\<close> and \<^verbatim>\<open>g.name\<close> (\<^term>\<open>None\<close> when the name is missing).\<close>

record galaxy =
  gid :: int
  gname :: "string option"

text \<open>
  One aggregated result, \<^verbatim>\<open>{ id: g.id, name, url, ...r }\<close>. The object literal has no
  \<^verbatim>\<open>valid\<close> and no \<^verbatim>\<open>reason\<close> of its own: they come from the spread.
\<close>

record row =
  row_id :: int
  row_name :: string
  row_url :: string
  row_valid :: "bool option"
  row_reason :: "string option"

text \<open>
  The spread \<^verbatim>\<open>...r\<close> comes last in the literal, so the properties of \<open>r\<close> overwrite the
  ones written before it.
\<close>

definition aggregate :: "galaxy \<Rightarrow> string \<Rightarrow> string \<Rightarrow> probe_result \<Rightarrow> row" where
  "aggregate g name u r =
     (let literal = \<lparr>row_id = gid g, row_name = name, row_url = u,
                     row_valid = None, row_reason = None\<rparr>
      in literal\<lparr>row_url := url r, row_valid := Some (valid r), row_reason := reason r\<rparr>)"

text \<open>
  The work of one task, once the limiter and the throttle have let it start:
  \<^verbatim>\<open>
      const name = g.name || '';
      const url = buildUrlFromName(name);
      ... checkUrl(url) ... .then(r => { completed++; printProgress(); return ({ id: g.id, name, url, ...r }); })
  \<close>
\<close>

definition task ::
  "(string \<Rightarrow> string \<Rightarrow> string option) \<Rightarrow> int \<Rightarrow> (nat \<Rightarrow> string \<Rightarrow> http_method \<Rightarrow> response)
     \<Rightarrow> galaxy \<Rightarrow> resolution \<times> row" where
  "task resolve maxR net g =
     (let name = or_empty (gname g);
          u = buildUrlFromName (Some name);
          out = checkUrl resolve net maxR u
      in (out, aggregate g name u (verdict out)))"

text \<open>
  The variables of \<^verbatim>\<open>main\<close> that change while it runs: \<^verbatim>\<open>results\<close> and \<^verbatim>\<open>completed\<close>; and
  what the run does to the outside: the values of \<^verbatim>\<open>completed\<close> that \<^verbatim>\<open>printProgress\<close>
  was called with, and the requests issued.
\<close>

record run_state =
  results :: "row list"
  completed :: nat
  progress :: "nat list"
  requests :: "hop list"

definition run_init :: run_state where
  "run_init = \<lparr>results = [], completed = 0, progress = [], requests = []\<rparr>"

text \<open>
  The tasks of one batch. Every record carries its position in the dataset, and the
  network \<open>net\<close> has one request function per position. The limiter (with at least one
  slot) and the throttle decide when a task starts, not what it returns; the tasks are
  taken in the order of the batch, which is the order of the values \<^verbatim>\<open>Promise.all\<close>
  resolves to. The tasks of a batch may complete in another order; a completion only adds
  one to \<^verbatim>\<open>completed\<close> and prints it, so the values printed are the same in any order.
  The requests are listed task by task.
\<close>

fun run_tasks ::
  "(string \<Rightarrow> string \<Rightarrow> string option) \<Rightarrow> int \<Rightarrow> (nat \<Rightarrow> nat \<Rightarrow> string \<Rightarrow> http_method \<Rightarrow> response)
     \<Rightarrow> (nat \<times> galaxy) list \<Rightarrow> run_state \<Rightarrow> row list \<times> run_state" where
  "run_tasks resolve maxR net [] st = ([], st)"
| "run_tasks resolve maxR net ((i, g) # rest) st =
     (let (out, r) = task resolve maxR (net i) g;
          st' = st\<lparr>completed := Suc (completed st),
                   progress := progress st @ [Suc (completed st)],
                   requests := requests st @ probed out\<rparr>;
          (rows, st'') = run_tasks resolve maxR net rest st'
      in (r # rows, st''))"

text \<open>
  \<^verbatim>\<open>
      const batchResults = await Promise.all(tasks);
      results.push(...batchResults);
  \<close>
\<close>

definition run_batch ::
  "(string \<Rightarrow> string \<Rightarrow> string option) \<Rightarrow> int \<Rightarrow> (nat \<Rightarrow> nat \<Rightarrow> string \<Rightarrow> http_method \<Rightarrow> response)
     \<Rightarrow> (nat \<times> galaxy) list \<Rightarrow> run_state \<Rightarrow> run_state" where
  "run_batch resolve maxR net batch st =
     (let (rows, st') = run_tasks resolve maxR net batch st
      in st'\<lparr>results := results st' @ rows\<rparr>)"

text \<open>
  \<^verbatim>\<open>list.slice(start, end)\<close>: a negative index counts from the end of the array, and both
  indices are clamped to the array.
\<close>

definition js_slice :: "'a list \<Rightarrow> int \<Rightarrow> int \<Rightarrow> 'a list" where
  "js_slice xs start stop =
     (let len = int (length xs);
          k = (if start < 0 then max (len + start) 0 else min start len);
          f = (if stop < 0 then max (len + stop) 0 else min stop len)
      in take (nat (f - k)) (drop (nat k) xs))"

text \<open>
  The loop over the batches; \<open>batchSize\<close> is \<^verbatim>\<open>BATCH_SIZE\<close>. The pause between two batches
  takes time and changes no variable. With a batch size below 1 the loop never ends: the
  result is \<^term>\<open>None\<close>.
  \<^verbatim>\<open>
    for (let i = 0; i < list.length; i += BATCH_SIZE) {
      const batch = list.slice(i, i + BATCH_SIZE);
      ...
    }
  \<close>
\<close>

partial_function (option) batch_loop ::
  "(string \<Rightarrow> string \<Rightarrow> string option) \<Rightarrow> int \<Rightarrow> int
     \<Rightarrow> (nat \<Rightarrow> nat \<Rightarrow> string \<Rightarrow> http_method \<Rightarrow> response)
     \<Rightarrow> (nat \<times> galaxy) list \<Rightarrow> int \<Rightarrow> run_state \<Rightarrow> run_state option" where
  "batch_loop resolve maxR batchSize net list i st =
     (if i < int (length list) then
        batch_loop resolve maxR batchSize net list (i + batchSize)
          (run_batch resolve maxR net (js_slice list i (i + batchSize)) st)
      else Some st)"

text \<open>
  What \<^verbatim>\<open>main\<close> reads: the file cannot be read or parsed (\<open>Unreadable\<close>), or it parses to
  a document whose \<^verbatim>\<open>galaxies\<close> is an array of records, or is not an array (\<^term>\<open>None\<close>).
\<close>

datatype dataset = Unreadable | Document "galaxy list option"

text \<open>
  What a run of the process ends with: its exit status, the variables of \<^verbatim>\<open>main\<close>, and the
  invalid results it lists (the first 50 are printed).
\<close>

record outcome =
  exit_status :: int
  run :: run_state
  invalid :: "row list"
  printed :: "row list"

text \<open>
  \<^verbatim>\<open>
  async function main() {
    const raw = fs.readFileSync(GALAXIES_PATH, 'utf-8');
    const json = JSON.parse(raw);
    const list = Array.isArray(json.galaxies) ? json.galaxies : [];
    if (list.length === 0) { console.error('No galaxies found in assets.'); process.exit(1); }
    ...
    const invalid = results.filter(r => !r.valid);
    if (invalid.length) { ... invalid.slice(0, 50).forEach(...) ... process.exit(1); }
    console.log(`All ${results.length} galaxy links are valid.`);
  }
  main().catch((e) => { console.error('Unexpected error:', e); process.exit(1); });
  \<close>
  A process that reaches the end of \<^verbatim>\<open>main\<close> exits with status 0.
\<close>

definition main ::
  "(string \<Rightarrow> string \<Rightarrow> string option) \<Rightarrow> int \<Rightarrow> int
     \<Rightarrow> (nat \<Rightarrow> nat \<Rightarrow> string \<Rightarrow> http_method \<Rightarrow> response) \<Rightarrow> dataset \<Rightarrow> outcome option" where
  "main resolve maxR batchSize net input =
     (case input of
        Unreadable \<Rightarrow>
          Some \<lparr>exit_status = 1, run = run_init, invalid = [], printed = []\<rparr>
      | Document galaxies \<Rightarrow>
          (let list = (case galaxies of Some a \<Rightarrow> a | None \<Rightarrow> [])
           in if length list = 0 then
                Some \<lparr>exit_status = 1, run = run_init, invalid = [], printed = []\<rparr>
              else
                (case batch_loop resolve maxR batchSize net (enumerate 0 list) 0 run_init of
                   None \<Rightarrow> None
                 | Some st \<Rightarrow>
                     (let bad = filter (\<lambda>r. row_valid r \<noteq> Some True) (results st)
                      in if length bad \<noteq> 0 then
                           Some \<lparr>exit_status = 1, run = st, invalid = bad, printed = take 50 bad\<rparr>
                         else
                           Some \<lparr>exit_status = 0, run = st, invalid = bad, printed = []\<rparr>))))"

subsection \<open>Concrete runs\<close>

text \<open>
  Inputs for the examples below. \<open>resolve_abs\<close> resolves an absolute location to itself,
  whatever the base; the string \<^verbatim>\<open>http://\<close> has no host, and \<^verbatim>\<open>new URL\<close> throws on it.
\<close>

definition resolve_abs :: "string \<Rightarrow> string \<Rightarrow> string option" where
  "resolve_abs loc base = (if loc = ''http://'' then None else Some loc)"

text \<open>A server that answers every request with a redirect.\<close>

definition net_chain :: "nat \<Rightarrow> string \<Rightarrow> http_method \<Rightarrow> response" where
  "net_chain n u m = Response 301 (Some ''https://nomanssky.fandom.com/wiki/Next'')"

text \<open>Five redirects, then a redirect whose location cannot be resolved.\<close>

definition net_bad_sixth :: "nat \<Rightarrow> string \<Rightarrow> http_method \<Rightarrow> response" where
  "net_bad_sixth n u m =
     Response 301 (Some (if n < 5 then ''https://nomanssky.fandom.com/wiki/Next'' else ''http://''))"

text \<open>
  Servers that refuse HEAD with 405; the second request (a GET) is redirected, every other
  GET is refused with 403.
\<close>

definition net_refusing :: "nat \<Rightarrow> string \<Rightarrow> http_method \<Rightarrow> response" where
  "net_refusing n u m =
     (if m = HEAD then Response 405 None
      else if n = 1 then Response 301 (Some ''https://nomanssky.fandom.com/wiki/Moved'')
      else Response 403 None)"

text \<open>Networks for a whole run, one request function per position in the dataset.\<close>

definition net_all_ok :: "nat \<Rightarrow> nat \<Rightarrow> string \<Rightarrow> http_method \<Rightarrow> response" where
  "net_all_ok i n u m = Response 200 None"


text \<open>Every page first redirects to its own address, then answers 200.\<close>

definition net_all_self :: "nat \<Rightarrow> nat \<Rightarrow> string \<Rightarrow> http_method \<Rightarrow> response" where
  "net_all_self i n u m = (if n = 0 then Response 301 (Some u) else Response 200 None)"

text \<open>Every page first redirects to another page, which answers 200.\<close>

definition net_all_moved :: "nat \<Rightarrow> nat \<Rightarrow> string \<Rightarrow> http_method \<Rightarrow> response" where
  "net_all_moved i n u m =
     (if n = 0 then Response 301 (Some ''https://nomanssky.fandom.com/wiki/Moved'')
      else Response 200 None)"

definition euclid :: galaxy where
  "euclid = \<lparr>gid = 1, gname = Some ''Euclid''\<rparr>"

definition hilbert :: galaxy where
  "hilbert = \<lparr>gid = 2, gname = Some ''Hilbert Dimension''\<rparr>"




subsection \<open>Invariants used in the proofs\<close>



section \<open>Properties\<close>

subsection \<open>Lemmas: URL builder\<close>

lemma split_js_nonempty: "split_js sep xs \<noteq> []"
  by (induction xs) (auto split: list.splits)

lemma join_js_cons_head: "join_js glue ((c # p) # ps) = c # join_js glue (p # ps)"
  by (cases ps) auto

lemma join_split_js:
  "join_js [u] (split_js sep xs) = map (\<lambda>c. if c = sep then u else c) xs"
proof (induction xs)
  case Nil
  show ?case by simp
next
  case (Cons c cs)
  obtain p ps where sp: "split_js sep cs = p # ps"
    using split_js_nonempty [of sep cs] by (cases "split_js sep cs") auto
  show ?case
  proof (cases "c = sep")
    case True
    with Cons sp show ?thesis by simp
  next
    case False
    with Cons sp show ?thesis by (simp add: join_js_cons_head)
  qed
qed

lemma or_empty_Some: "or_empty (Some n) = n"
  by (simp add: or_empty_def)

lemma buildUrlFromName_Some: "buildUrlFromName (Some n) = BASE @ spaces_to_underscores n"
  by (simp add: buildUrlFromName_def spaces_to_underscores_def or_empty_Some join_split_js)


lemma space_free_fixed: "CHR '' '' \<notin> set n \<Longrightarrow> spaces_to_underscores n = n"
  by (induction n) (auto simp: spaces_to_underscores_def)

lemma BASE_no_space: "CHR '' '' \<notin> set BASE"
  by (simp add: BASE_def)

lemma no_space_out: "CHR '' '' \<notin> set (spaces_to_underscores n)"
  by (auto simp: spaces_to_underscores_def)

subsection \<open>Lemmas: resolver\<close>

lemma loop_probed_bound:
  "length (probed (checkUrl_loop resolve net maxR n s))
     \<le> 2 * nat (maxR + 1 - redirects s) - (if meth s = GET then 1 else 0)"
proof (induction resolve net maxR n s rule: checkUrl_loop.induct)
  case (1 resolve net maxR n s)
  show ?case
  proof (cases "redirects s \<le> maxR")
    case False
    then show ?thesis by (simp add: checkUrl_loop.simps)
  next
    case le: True
    show ?thesis
    proof (cases "loop_body resolve (net n (currentUrl s) (meth s)) s")
      case (Return r)
      with le show ?thesis
        by (cases "meth s") (auto simp: checkUrl_loop.simps [of _ _ _ _ s])
    next
      case (Continue s')
      from "1.IH" [OF le Continue]
      have ih: "length (probed (checkUrl_loop resolve net maxR (Suc n) s'))
           \<le> 2 * nat (maxR + 1 - redirects s') - (if meth s' = GET then 1 else 0)" .
      from loop_body_Continue [OF Continue] le ih Continue show ?thesis
        by (auto simp: checkUrl_loop.simps [of _ _ _ _ s] Let_def nat_diff_distrib split: if_splits)
    qed
  qed
qed

lemma loop_probed_hd:
  "probed (checkUrl_loop resolve net maxR n s) \<noteq> [] \<Longrightarrow>
   probed (checkUrl_loop resolve net maxR n s) ! 0 = s"
  by (subst (asm) checkUrl_loop.simps, subst checkUrl_loop.simps)
     (auto simp: Let_def split: step.splits if_splits)

lemma loop_probed_nonempty:
  "redirects s \<le> maxR \<Longrightarrow> probed (checkUrl_loop resolve net maxR n s) \<noteq> []"
  by (subst checkUrl_loop.simps) (auto simp: Let_def split: step.splits)

lemma loop_chain:
  "k < length (probed (checkUrl_loop resolve net maxR n s)) \<Longrightarrow>
   (let out = checkUrl_loop resolve net maxR n s; h = probed out ! k in
     redirects h \<le> maxR \<and>
     (case loop_body resolve (net (n + k) (currentUrl h) (meth h)) h of
        Return r \<Rightarrow> Suc k = length (probed out) \<and> verdict out = r \<and> final out = h
      | Continue s' \<Rightarrow>
          if redirects s' \<le> maxR then Suc k < length (probed out) \<and> probed out ! Suc k = s'
          else Suc k = length (probed out) \<and> verdict out = \<lparr>url = currentUrl s', valid = False, reason = Some ''too many redirects''\<rparr> \<and> final out = s'))"
proof (induction resolve net maxR n s arbitrary: k rule: checkUrl_loop.induct)
  case (1 resolve net maxR n s)
  show ?case
  proof (cases "redirects s \<le> maxR")
    case False
    with "1.prems" show ?thesis by (simp add: checkUrl_loop.simps)
  next
    case le: True
    show ?thesis
    proof (cases "loop_body resolve (net n (currentUrl s) (meth s)) s")
      case (Return r)
      with le "1.prems" show ?thesis
        by (simp add: checkUrl_loop.simps [of _ _ _ _ s])
    next
      case (Continue s')
      let ?rest = "checkUrl_loop resolve net maxR (Suc n) s'"
      have unfold: "checkUrl_loop resolve net maxR n s = ?rest\<lparr>probed := s # probed ?rest\<rparr>"
        using le Continue by (simp add: checkUrl_loop.simps [of _ _ _ _ s] Let_def)
      show ?thesis
      proof (cases k)
        case 0
        show ?thesis
        proof (cases "redirects s' \<le> maxR")
          case True
          from loop_probed_nonempty [OF True] loop_probed_hd [of resolve net maxR "Suc n" s']
          show ?thesis using 0 le Continue True unfold by (simp add: Let_def)
        next
          case False
          then have "?rest = \<lparr>verdict = \<lparr>url = currentUrl s', valid = False,
                 reason = Some ''too many redirects''\<rparr>, final = s', probed = []\<rparr>"
            by (simp add: checkUrl_loop.simps [of _ _ _ _ s'])
          then show ?thesis using 0 le Continue False unfold by (simp add: Let_def)
        qed
      next
        case (Suc j)
        with "1.prems" unfold have j: "j < length (probed ?rest)" by simp
        from "1.IH" [OF le Continue j] show ?thesis
          unfolding Suc unfold by (auto simp: Let_def split: step.splits)
      qed
    qed
  qed
qed

lemma checkUrl_chain:
  assumes "k < length (probed (checkUrl resolve net maxR u))"
  shows "redirects (probed (checkUrl resolve net maxR u) ! k) \<le> maxR"
    and "loop_body resolve (net k (currentUrl (probed (checkUrl resolve net maxR u) ! k))
              (meth (probed (checkUrl resolve net maxR u) ! k)))
            (probed (checkUrl resolve net maxR u) ! k) = Return r \<Longrightarrow>
         Suc k = length (probed (checkUrl resolve net maxR u)) \<and>
         verdict (checkUrl resolve net maxR u) = r \<and>
         final (checkUrl resolve net maxR u) = probed (checkUrl resolve net maxR u) ! k"
    and "loop_body resolve (net k (currentUrl (probed (checkUrl resolve net maxR u) ! k))
              (meth (probed (checkUrl resolve net maxR u) ! k)))
            (probed (checkUrl resolve net maxR u) ! k) = Continue s' \<Longrightarrow>
         redirects s' \<le> maxR \<Longrightarrow>
         Suc k < length (probed (checkUrl resolve net maxR u)) \<and>
         probed (checkUrl resolve net maxR u) ! Suc k = s'"
    and "loop_body resolve (net k (currentUrl (probed (checkUrl resolve net maxR u) ! k))
              (meth (probed (checkUrl resolve net maxR u) ! k)))
            (probed (checkUrl resolve net maxR u) ! k) = Continue s' \<Longrightarrow>
         \<not> redirects s' \<le> maxR \<Longrightarrow>
         Suc k = length (probed (checkUrl resolve net maxR u)) \<and>
         verdict (checkUrl resolve net maxR u) =
           \<lparr>url = currentUrl s', valid = False, reason = Some ''too many redirects''\<rparr> \<and>
         final (checkUrl resolve net maxR u) = s'"
  using loop_chain [of k resolve net maxR 0 "\<lparr>currentUrl = u, redirects = 0, meth = HEAD\<rparr>"] assms
  by (simp_all add: checkUrl_def Let_def)

lemma loop_body_fallback:
  "status = 403 \<or> status = 405 \<Longrightarrow> meth h = HEAD \<Longrightarrow>
   loop_body resolve (Response status loc) h = Continue (h\<lparr>meth := GET\<rparr>)"
  by (auto simp: loop_body_def)

lemma loop_body_refused:
  "status = 403 \<or> status = 405 \<Longrightarrow> meth h = GET \<Longrightarrow>
   loop_body resolve (Response status loc) h =
     Return \<lparr>url = currentUrl h, valid = False, reason = Some (''HTTP '' @ string_of_nat status)\<rparr>"
  by (auto simp: loop_body_def)

lemma loop_body_redirect:
  "300 \<le> status \<Longrightarrow> status < 400 \<Longrightarrow> loc \<noteq> [] \<Longrightarrow> resolve loc (currentUrl h) = Some target \<Longrightarrow>
   loop_body resolve (Response status (Some loc)) h =
     Continue \<lparr>currentUrl = target, redirects = redirects h + 1, meth = HEAD\<rparr>"
  by (auto simp: loop_body_def or_empty_def)

lemma loop_body_bad_location:
  "300 \<le> status \<Longrightarrow> status < 400 \<Longrightarrow> loc \<noteq> [] \<Longrightarrow> resolve loc (currentUrl h) = None \<Longrightarrow>
   loop_body resolve (Response status (Some loc)) h =
     Return \<lparr>url = currentUrl h, valid = False, reason = Some ''invalid redirect location''\<rparr>"
  by (auto simp: loop_body_def or_empty_def)

lemma loop_body_to_GET:
  assumes "loop_body resolve lastR h = Continue h'" and "meth h' = GET"
  shows "meth h = HEAD \<and> h' = h\<lparr>meth := GET\<rparr>"
  using assms
  by (auto simp: loop_body_def split: response.splits if_splits option.splits)

lemma loop_body_from_GET:
  assumes "loop_body resolve lastR h = Continue h'" and "meth h = GET"
  shows "meth h' = HEAD \<and> redirects h' = redirects h + 1"
  using assms
  by (auto simp: loop_body_def split: response.splits if_splits option.splits)

lemma checkUrl_probed_0:
  "0 < length (probed (checkUrl resolve net maxR u)) \<Longrightarrow>
   probed (checkUrl resolve net maxR u) ! 0 = \<lparr>currentUrl = u, redirects = 0, meth = HEAD\<rparr>"
  using loop_probed_hd [of resolve net maxR 0 "\<lparr>currentUrl = u, redirects = 0, meth = HEAD\<rparr>"]
  by (simp add: checkUrl_def)

lemma checkUrl_step_back:
  assumes "Suc j < length (probed (checkUrl resolve net maxR u))"
  shows "loop_body resolve (net j (currentUrl (probed (checkUrl resolve net maxR u) ! j))
              (meth (probed (checkUrl resolve net maxR u) ! j)))
            (probed (checkUrl resolve net maxR u) ! j)
         = Continue (probed (checkUrl resolve net maxR u) ! Suc j)"
proof -
  let ?t = "probed (checkUrl resolve net maxR u)"
  let ?b = "loop_body resolve (net j (currentUrl (?t ! j)) (meth (?t ! j))) (?t ! j)"
  from assms have j: "j < length ?t" by simp
  show ?thesis
  proof (cases ?b)
    case (Return r)
    from checkUrl_chain(2) [OF j Return] assms show ?thesis by simp
  next
    case (Continue s')
    show ?thesis
    proof (cases "redirects s' \<le> maxR")
      case True
      from checkUrl_chain(3) [OF j Continue True] Continue show ?thesis by simp
    next
      case False
      from checkUrl_chain(4) [OF j Continue False] assms show ?thesis by simp
    qed
  qed
qed

lemma loop_body_Continue_kind:
  assumes "loop_body resolve lastR s = Continue s'"
  shows "s' = s\<lparr>meth := GET\<rparr> \<or> redirects s' = redirects s + 1"
  using assms
  by (auto simp: loop_body_def split: response.splits if_splits option.splits)

lemma loop_body_Return_url:
  assumes "loop_body resolve lastR s = Return r"
  shows "url r = currentUrl s"
  using assms
  by (auto simp: loop_body_def split: response.splits if_splits option.splits)

lemma loop_final:
  "url (verdict (checkUrl_loop resolve net maxR n s)) = currentUrl (final (checkUrl_loop resolve net maxR n s))
   \<and> redirects s \<le> redirects (final (checkUrl_loop resolve net maxR n s))
   \<and> (redirects (final (checkUrl_loop resolve net maxR n s)) = redirects s \<longrightarrow>
        currentUrl (final (checkUrl_loop resolve net maxR n s)) = currentUrl s)"
proof (induction resolve net maxR n s rule: checkUrl_loop.induct)
  case (1 resolve net maxR n s)
  show ?case
  proof (cases "redirects s \<le> maxR")
    case False
    then show ?thesis by (simp add: checkUrl_loop.simps)
  next
    case le: True
    show ?thesis
    proof (cases "loop_body resolve (net n (currentUrl s) (meth s)) s")
      case (Return r)
      with le loop_body_Return_url [OF Return] show ?thesis
        by (simp add: checkUrl_loop.simps [of _ _ _ _ s])
    next
      case (Continue s')
      have unfold: "checkUrl_loop resolve net maxR n s =
          (checkUrl_loop resolve net maxR (Suc n) s')
            \<lparr>probed := s # probed (checkUrl_loop resolve net maxR (Suc n) s')\<rparr>"
        using le Continue by (simp add: checkUrl_loop.simps [of _ _ _ _ s] Let_def)
      from "1.IH" [OF le Continue] loop_body_Continue_kind [OF Continue]
      show ?thesis unfolding unfold by auto
    qed
  qed
qed

lemma checkUrl_final:
  "url (verdict (checkUrl resolve net maxR u)) = currentUrl (final (checkUrl resolve net maxR u))"
  "redirects (final (checkUrl resolve net maxR u)) = 0 \<Longrightarrow>
     currentUrl (final (checkUrl resolve net maxR u)) = u"
  using loop_final [of resolve net maxR 0 "\<lparr>currentUrl = u, redirects = 0, meth = HEAD\<rparr>"]
  by (simp_all add: checkUrl_def)

subsection \<open>Lemmas: batches and aggregation\<close>

lemma or_empty_idem: "or_empty (Some (or_empty name)) = or_empty name"
  by (simp add: or_empty_def split: option.splits)

lemma buildUrlFromName_or_empty: "buildUrlFromName (Some (or_empty name)) = buildUrlFromName name"
  by (simp add: buildUrlFromName_def or_empty_idem)

lemma task_eq:
  "task resolve maxR net g =
     (checkUrl resolve net maxR (buildUrlFromName (gname g)),
      aggregate g (or_empty (gname g)) (buildUrlFromName (gname g))
        (verdict (checkUrl resolve net maxR (buildUrlFromName (gname g)))))"
  by (simp add: task_def Let_def buildUrlFromName_or_empty)

lemma aggregate_fields:
  "aggregate g name u r =
     \<lparr>row_id = gid g, row_name = name, row_url = url r, row_valid = Some (valid r),
      row_reason = reason r\<rparr>"
  by (simp add: aggregate_def)

lemma run_tasks_Cons:
  "run_tasks resolve maxR net ((i, g) # rest) st =
     (snd (task resolve maxR (net i) g) #
        fst (run_tasks resolve maxR net rest
              (st\<lparr>completed := Suc (completed st),
                  progress := progress st @ [Suc (completed st)],
                  requests := requests st @ probed (fst (task resolve maxR (net i) g))\<rparr>)),
      snd (run_tasks resolve maxR net rest
              (st\<lparr>completed := Suc (completed st),
                  progress := progress st @ [Suc (completed st)],
                  requests := requests st @ probed (fst (task resolve maxR (net i) g))\<rparr>)))"
  by (simp add: Let_def split: prod.splits)

lemma run_tasks_rows:
  "fst (run_tasks resolve maxR net xs st) = map (\<lambda>(i, g). snd (task resolve maxR (net i) g)) xs"
proof (induction xs arbitrary: st)
  case Nil
  show ?case by simp
next
  case (Cons x xs)
  obtain i g where x: "x = (i, g)" by (cases x)
  show ?case unfolding x run_tasks_Cons by (simp add: Cons.IH)
qed

lemma run_tasks_state:
  "snd (run_tasks resolve maxR net xs st) =
     st\<lparr>completed := completed st + length xs,
        progress := progress st @ [Suc (completed st) ..< Suc (completed st + length xs)],
        requests := requests st @
          concat (map (\<lambda>(i, g). probed (fst (task resolve maxR (net i) g))) xs)\<rparr>"
proof (induction xs arbitrary: st)
  case Nil
  show ?case by simp
next
  case (Cons x xs)
  obtain i g where x: "x = (i, g)" by (cases x)
  show ?case
    unfolding x run_tasks_Cons
    by (simp add: Cons.IH upt_conv_Cons del: upt_Suc)
qed

lemma run_batch_state:
  "run_batch resolve maxR net xs st =
     st\<lparr>results := results st @ map (\<lambda>(i, g). snd (task resolve maxR (net i) g)) xs,
        completed := completed st + length xs,
        progress := progress st @ [Suc (completed st) ..< Suc (completed st + length xs)],
        requests := requests st @
          concat (map (\<lambda>(i, g). probed (fst (task resolve maxR (net i) g))) xs)\<rparr>"
proof -
  obtain rows st' where rt: "run_tasks resolve maxR net xs st = (rows, st')"
    by (cases "run_tasks resolve maxR net xs st")
  from rt run_tasks_rows [of resolve maxR net xs st] run_tasks_state [of resolve maxR net xs st]
  show ?thesis by (simp add: run_batch_def)
qed

lemma upt_Suc_split:
  "[Suc c ..< Suc (c + m)] @ [Suc (c + m) ..< Suc (c + (m + n))] = [Suc c ..< Suc (c + (m + n))]"
  by (metis add.assoc add_Suc le_add1 upt_add_eq_append)

lemma run_batch_append:
  "run_batch resolve maxR net (xs @ ys) st =
     run_batch resolve maxR net ys (run_batch resolve maxR net xs st)"
  by (simp add: run_batch_state [of _ _ _ _ st] run_batch_state [of _ _ _ ys] upt_Suc_split
        add.assoc del: upt_Suc)

lemma run_batch_Nil: "run_batch resolve maxR net [] st = st"
  by (simp add: run_batch_def)

lemma js_slice_batch:
  assumes "0 \<le> i" "i < int (length xs)" "1 \<le> b"
  shows "js_slice xs i (i + b) = take (nat b) (drop (nat i) xs)"
proof -
  have "take (nat (min (i + b) (int (length xs)) - i)) (drop (nat i) xs)
        = take (nat b) (drop (nat i) xs)"
    using assms by (cases "i + b \<le> int (length xs)") (auto simp: min_def)
  with assms show ?thesis by (simp add: js_slice_def Let_def min_def)
qed

lemma batch_loop_total:
  assumes "1 \<le> b" "0 \<le> i"
  shows "batch_loop resolve maxR b net xs i st = Some (run_batch resolve maxR net (drop (nat i) xs) st)"
  using assms(2)
proof (induction "length xs - nat i" arbitrary: i st rule: less_induct)
  case less
  show ?case
  proof (cases "i < int (length xs)")
    case False
    with less.prems show ?thesis
      by (subst batch_loop.simps) (simp add: run_batch_Nil)
  next
    case True
    have step: "batch_loop resolve maxR b net xs (i + b)
                  (run_batch resolve maxR net (js_slice xs i (i + b)) st)
          = Some (run_batch resolve maxR net (drop (nat (i + b)) xs)
                  (run_batch resolve maxR net (js_slice xs i (i + b)) st))"
      using less.prems True assms(1) by (intro less.hyps) auto
    have "drop (nat i) xs = take (nat b) (drop (nat i) xs) @ drop (nat (i + b)) xs"
      using less.prems assms(1)
      by (simp add: nat_add_distrib add.commute [of "nat i"] flip: drop_drop)
    then have "run_batch resolve maxR net (drop (nat i) xs) st
        = run_batch resolve maxR net (drop (nat (i + b)) xs)
            (run_batch resolve maxR net (js_slice xs i (i + b)) st)"
      using js_slice_batch [OF less.prems True assms(1)]
      by (metis run_batch_append)
    with step True show ?thesis
      by (subst batch_loop.simps) simp
  qed
qed

lemma run_batch_init:
  "run_batch resolve maxR net xs run_init =
     \<lparr>results = map (\<lambda>(i, g). snd (task resolve maxR (net i) g)) xs,
      completed = length xs,
      progress = [1 ..< Suc (length xs)],
      requests = concat (map (\<lambda>(i, g). probed (fst (task resolve maxR (net i) g))) xs)\<rparr>"
  by (simp add: run_batch_state run_init_def del: upt_Suc)

lemma main_nonempty:
  assumes "1 \<le> b" "xs \<noteq> []"
  shows "main resolve maxR b net (Document (Some xs)) =
     Some \<lparr>exit_status =
             (if filter (\<lambda>r. row_valid r \<noteq> Some True)
                   (results (run_batch resolve maxR net (enumerate 0 xs) run_init)) \<noteq> []
              then 1 else 0),
           run = run_batch resolve maxR net (enumerate 0 xs) run_init,
           invalid = filter (\<lambda>r. row_valid r \<noteq> Some True)
                   (results (run_batch resolve maxR net (enumerate 0 xs) run_init)),
           printed =
             (if filter (\<lambda>r. row_valid r \<noteq> Some True)
                   (results (run_batch resolve maxR net (enumerate 0 xs) run_init)) \<noteq> []
              then take 50 (filter (\<lambda>r. row_valid r \<noteq> Some True)
                   (results (run_batch resolve maxR net (enumerate 0 xs) run_init)))
              else [])\<rparr>"
  using assms batch_loop_total [of b 0 resolve maxR net "enumerate 0 xs" run_init]
  by (simp add: main_def Let_def)


lemma results_nth:
  assumes "i < length xs"
  shows "results (run_batch resolve maxR net (enumerate 0 xs) run_init) ! i =
     aggregate (xs ! i) (or_empty (gname (xs ! i))) (buildUrlFromName (gname (xs ! i)))
        (verdict (checkUrl resolve (net i) maxR (buildUrlFromName (gname (xs ! i)))))"
  using assms by (simp add: run_batch_init nth_enumerate_eq task_eq)




subsection \<open>Lemmas: limiter and throttle\<close>

















subsection \<open>Lemmas: the concrete runs\<close>

lemmas run_simps = checkUrl_def checkUrl_loop.simps loop_body_def or_empty_def Let_def
  resolve_abs_def

lemma ev_chain:
  "checkUrl resolve_abs net_chain 5 ''https://nomanssky.fandom.com/wiki/Euclid'' =
    \<lparr>verdict = \<lparr>url = ''https://nomanssky.fandom.com/wiki/Next'', valid = False,
                 reason = Some ''too many redirects''\<rparr>,
      final = \<lparr>currentUrl = ''https://nomanssky.fandom.com/wiki/Next'', redirects = 6, meth = HEAD\<rparr>,
      probed = [\<lparr>currentUrl = ''https://nomanssky.fandom.com/wiki/Euclid'', redirects = 0, meth = HEAD\<rparr>,
                \<lparr>currentUrl = ''https://nomanssky.fandom.com/wiki/Next'', redirects = 1, meth = HEAD\<rparr>,
                \<lparr>currentUrl = ''https://nomanssky.fandom.com/wiki/Next'', redirects = 2, meth = HEAD\<rparr>,
                \<lparr>currentUrl = ''https://nomanssky.fandom.com/wiki/Next'', redirects = 3, meth = HEAD\<rparr>,
                \<lparr>currentUrl = ''https://nomanssky.fandom.com/wiki/Next'', redirects = 4, meth = HEAD\<rparr>,
                \<lparr>currentUrl = ''https://nomanssky.fandom.com/wiki/Next'', redirects = 5, meth = HEAD\<rparr>]\<rparr>"
  by (simp add: run_simps net_chain_def)

lemma ev_refusing:
  "checkUrl resolve_abs net_refusing 5 ''https://nomanssky.fandom.com/wiki/Euclid'' =
    \<lparr>verdict = \<lparr>url = ''https://nomanssky.fandom.com/wiki/Moved'', valid = False,
                 reason = Some ''HTTP 403''\<rparr>,
      final = \<lparr>currentUrl = ''https://nomanssky.fandom.com/wiki/Moved'', redirects = 1, meth = GET\<rparr>,
      probed = [\<lparr>currentUrl = ''https://nomanssky.fandom.com/wiki/Euclid'', redirects = 0, meth = HEAD\<rparr>,
                \<lparr>currentUrl = ''https://nomanssky.fandom.com/wiki/Euclid'', redirects = 0, meth = GET\<rparr>,
                \<lparr>currentUrl = ''https://nomanssky.fandom.com/wiki/Moved'', redirects = 1, meth = HEAD\<rparr>,
                \<lparr>currentUrl = ''https://nomanssky.fandom.com/wiki/Moved'', redirects = 1, meth = GET\<rparr>]\<rparr>"
  by (simp add: run_simps net_refusing_def string_of_nat.simps)

lemma ev_all_ok:
  "checkUrl resolve (net_all_ok i) 5 u =
     \<lparr>verdict = \<lparr>url = u, valid = True, reason = None\<rparr>,
      final = \<lparr>currentUrl = u, redirects = 0, meth = HEAD\<rparr>,
      probed = [\<lparr>currentUrl = u, redirects = 0, meth = HEAD\<rparr>]\<rparr>"
  by (simp add: run_simps net_all_ok_def)


lemma ev_all_moved:
  "checkUrl resolve_abs (net_all_moved i) 5 u =
     \<lparr>verdict = \<lparr>url = ''https://nomanssky.fandom.com/wiki/Moved'', valid = True, reason = None\<rparr>,
      final = \<lparr>currentUrl = ''https://nomanssky.fandom.com/wiki/Moved'', redirects = 1, meth = HEAD\<rparr>,
      probed = [\<lparr>currentUrl = u, redirects = 0, meth = HEAD\<rparr>,
                \<lparr>currentUrl = ''https://nomanssky.fandom.com/wiki/Moved'', redirects = 1, meth = HEAD\<rparr>]\<rparr>"
  by (simp add: run_simps net_all_moved_def)

lemma ev_all_self:
  "checkUrl resolve_abs (net_all_self i) 5 ''https://nomanssky.fandom.com/wiki/Euclid'' =
     \<lparr>verdict = \<lparr>url = ''https://nomanssky.fandom.com/wiki/Euclid'', valid = True, reason = None\<rparr>,
      final = \<lparr>currentUrl = ''https://nomanssky.fandom.com/wiki/Euclid'', redirects = 1, meth = HEAD\<rparr>,
      probed = [\<lparr>currentUrl = ''https://nomanssky.fandom.com/wiki/Euclid'', redirects = 0, meth = HEAD\<rparr>,
                \<lparr>currentUrl = ''https://nomanssky.fandom.com/wiki/Euclid'', redirects = 1, meth = HEAD\<rparr>]\<rparr>"
  by (simp add: run_simps net_all_self_def)

lemma ev_euclid_url: "buildUrlFromName (gname euclid) = ''https://nomanssky.fandom.com/wiki/Euclid''"
  by (simp add: buildUrlFromName_def or_empty_def euclid_def BASE_def)

lemma ev_hilbert_url:
  "buildUrlFromName (gname hilbert) = ''https://nomanssky.fandom.com/wiki/Hilbert_Dimension''"
  by (simp add: buildUrlFromName_def or_empty_def hilbert_def BASE_def)




section \<open>The claims\<close>

subsection \<open>C1: the redirect limit\<close>

text \<open>
  Claim C1, as the code has it. A resolution issues at most \<open>2 * (maxRedirects + 1)\<close>
  requests, whatever the network answers, so it always ends. When a request answers with a
  status in [300, 400) and a non-empty \<^verbatim>\<open>Location\<close> while the redirect count has reached
  \<open>maxRedirects\<close>, that request is the last one, and the result is invalid: with the reason
  \<^verbatim>\<open>too many redirects\<close> and the resolved target as its URL when the location resolves
  against the current URL, and with the reason \<^verbatim>\<open>invalid redirect location\<close> when it does
  not. The location is resolved before the limit is looked at.
\<close>

theorem checkUrl_redirect_limit:
  "length (probed (checkUrl resolve net maxR u)) \<le> 2 * nat (maxR + 1) \<and>
   (\<forall>k status loc.
      k < length (probed (checkUrl resolve net maxR u)) \<and>
      net k (currentUrl (probed (checkUrl resolve net maxR u) ! k))
            (meth (probed (checkUrl resolve net maxR u) ! k)) = Response status (Some loc) \<and>
      300 \<le> status \<and> status < 400 \<and> loc \<noteq> [] \<and>
      maxR \<le> redirects (probed (checkUrl resolve net maxR u) ! k) \<longrightarrow>
      Suc k = length (probed (checkUrl resolve net maxR u)) \<and>
      verdict (checkUrl resolve net maxR u) =
        (case resolve loc (currentUrl (probed (checkUrl resolve net maxR u) ! k)) of
           Some target \<Rightarrow>
             \<lparr>url = target, valid = False, reason = Some ''too many redirects''\<rparr>
         | None \<Rightarrow>
             \<lparr>url = currentUrl (probed (checkUrl resolve net maxR u) ! k), valid = False,
              reason = Some ''invalid redirect location''\<rparr>))"
proof -
  let ?out = "checkUrl resolve net maxR u"
  have bound: "length (probed ?out) \<le> 2 * nat (maxR + 1)"
    using loop_probed_bound [of resolve net maxR 0 "\<lparr>currentUrl = u, redirects = 0, meth = HEAD\<rparr>"]
    by (simp add: checkUrl_def)
  have limit: "Suc k = length (probed ?out) \<and>
      verdict ?out =
        (case resolve loc (currentUrl (probed ?out ! k)) of
           Some target \<Rightarrow> \<lparr>url = target, valid = False, reason = Some ''too many redirects''\<rparr>
         | None \<Rightarrow> \<lparr>url = currentUrl (probed ?out ! k), valid = False,
              reason = Some ''invalid redirect location''\<rparr>)"
    if k: "k < length (probed ?out)"
      and resp: "net k (currentUrl (probed ?out ! k)) (meth (probed ?out ! k)) = Response status (Some loc)"
      and st: "300 \<le> status" "status < 400" "loc \<noteq> []"
      and r: "maxR \<le> redirects (probed ?out ! k)"
    for k status loc
  proof (cases "resolve loc (currentUrl (probed ?out ! k))")
    case None
    from checkUrl_chain(2) [OF k, unfolded resp, OF loop_body_bad_location [of status loc resolve "probed ?out ! k", OF st None]] None
    show ?thesis by simp
  next
    case (Some target)
    from checkUrl_chain(4) [OF k, unfolded resp, OF loop_body_redirect [of status loc resolve "probed ?out ! k" target, OF st Some]] r Some
    show ?thesis by simp
  qed
  from bound limit show ?thesis by blast
qed

text \<open>
  The scenario of the spec: six redirects in a row with a limit of five. The sixth request
  is issued with the count at five, and its redirect ends the resolution.
\<close>

theorem checkUrl_redirect_limit_witness:
  "length (probed (checkUrl resolve_abs net_chain 5 ''https://nomanssky.fandom.com/wiki/Euclid''))
     \<le> 2 * nat (5 + 1) \<and>
   Suc 5 = length (probed (checkUrl resolve_abs net_chain 5 ''https://nomanssky.fandom.com/wiki/Euclid'')) \<and>
   verdict (checkUrl resolve_abs net_chain 5 ''https://nomanssky.fandom.com/wiki/Euclid'') =
     \<lparr>url = ''https://nomanssky.fandom.com/wiki/Next'', valid = False,
      reason = Some ''too many redirects''\<rparr>"
proof -
  let ?out = "checkUrl resolve_abs net_chain 5 ''https://nomanssky.fandom.com/wiki/Euclid''"
  note inst = checkUrl_redirect_limit [of resolve_abs net_chain 5
      "''https://nomanssky.fandom.com/wiki/Euclid''"]
  have k: "5 < length (probed ?out)"
    and resp: "net_chain 5 (currentUrl (probed ?out ! 5)) (meth (probed ?out ! 5))
        = Response 301 (Some ''https://nomanssky.fandom.com/wiki/Next'')"
    and r: "5 \<le> redirects (probed ?out ! 5)"
    and res: "resolve_abs ''https://nomanssky.fandom.com/wiki/Next'' (currentUrl (probed ?out ! 5))
        = Some ''https://nomanssky.fandom.com/wiki/Next''"
    by (simp_all add: ev_chain net_chain_def resolve_abs_def)
  from inst have bound: "length (probed ?out) \<le> 2 * nat (5 + 1)" by (rule conjunct1)
  from inst [THEN conjunct2, rule_format,
      of 5 301 "''https://nomanssky.fandom.com/wiki/Next''"] k resp r res
  have "Suc 5 = length (probed ?out) \<and> verdict ?out =
     \<lparr>url = ''https://nomanssky.fandom.com/wiki/Next'', valid = False,
      reason = Some ''too many redirects''\<rparr>"
    by simp
  with bound show ?thesis by simp
qed

text \<open>
  C1 as the spec states it, with the limit tested before the location is resolved, fails:
  after five redirects the sixth answer is a redirect to \<^verbatim>\<open>http://\<close>, the count has reached
  the limit, and the reason is \<^verbatim>\<open>invalid redirect location\<close>.
\<close>

theorem checkUrl_redirect_limit_counterexample:
  "5 < length (probed (checkUrl resolve_abs net_bad_sixth 5 ''https://nomanssky.fandom.com/wiki/Euclid'')) \<and>
   net_bad_sixth 5
     (currentUrl (probed (checkUrl resolve_abs net_bad_sixth 5 ''https://nomanssky.fandom.com/wiki/Euclid'') ! 5))
     (meth (probed (checkUrl resolve_abs net_bad_sixth 5 ''https://nomanssky.fandom.com/wiki/Euclid'') ! 5))
     = Response 301 (Some ''http://'') \<and>
   (5::int) \<le> redirects (probed (checkUrl resolve_abs net_bad_sixth 5 ''https://nomanssky.fandom.com/wiki/Euclid'') ! 5) \<and>
   verdict (checkUrl resolve_abs net_bad_sixth 5 ''https://nomanssky.fandom.com/wiki/Euclid'') =
     \<lparr>url = ''https://nomanssky.fandom.com/wiki/Next'', valid = False,
      reason = Some ''invalid redirect location''\<rparr> \<and>
   reason (verdict (checkUrl resolve_abs net_bad_sixth 5 ''https://nomanssky.fandom.com/wiki/Euclid''))
     \<noteq> Some ''too many redirects''"
  by (simp add: run_simps net_bad_sixth_def)

subsection \<open>C2: the method fallback\<close>

text \<open>
  Claim C2. Take any request of a resolution (the \<open>k\<close>-th, issued for the hop \<open>h\<close>) that
  got a response with a status code.
  \<^item> Status 403 or 405 to a HEAD: the next request is for the same URL with the same
    redirect count, by GET.
  \<^item> Status 403 or 405 to a GET: no request follows, and the result is invalid with the
    reason \<^verbatim>\<open>HTTP 403\<close> or \<^verbatim>\<open>HTTP 405\<close>.
  \<^item> A GET is only ever the fallback of the HEAD request just before it, for the same
    URL and redirect count, and the request after a GET, when there is one, is a HEAD
    for the next redirect count: one fallback per hop at most.
  \<^item> A redirect that is followed (status in [300, 400), a non-empty location that
    resolves, count below the limit) leads to a HEAD request for the target, whatever
    the method was.
\<close>

theorem checkUrl_method_fallback:
  assumes k: "k < length (probed (checkUrl resolve net maxR u))"
    and h: "h = probed (checkUrl resolve net maxR u) ! k"
    and resp: "net k (currentUrl h) (meth h) = Response status loc"
  shows
   "((status = 403 \<or> status = 405) \<and> meth h = HEAD \<longrightarrow>
       Suc k < length (probed (checkUrl resolve net maxR u)) \<and>
       probed (checkUrl resolve net maxR u) ! Suc k = h\<lparr>meth := GET\<rparr>) \<and>
    ((status = 403 \<or> status = 405) \<and> meth h = GET \<longrightarrow>
       Suc k = length (probed (checkUrl resolve net maxR u)) \<and>
       verdict (checkUrl resolve net maxR u) =
         \<lparr>url = currentUrl h, valid = False, reason = Some (''HTTP '' @ string_of_nat status)\<rparr>) \<and>
    (meth h = GET \<longrightarrow>
       0 < k \<and> probed (checkUrl resolve net maxR u) ! (k - 1) = h\<lparr>meth := HEAD\<rparr>) \<and>
    (meth h = GET \<and> Suc k < length (probed (checkUrl resolve net maxR u)) \<longrightarrow>
       meth (probed (checkUrl resolve net maxR u) ! Suc k) = HEAD \<and>
       redirects (probed (checkUrl resolve net maxR u) ! Suc k) = redirects h + 1) \<and>
    (\<forall>l target. 300 \<le> status \<and> status < 400 \<and> loc = Some l \<and> l \<noteq> [] \<and>
       resolve l (currentUrl h) = Some target \<and> redirects h < maxR \<longrightarrow>
       Suc k < length (probed (checkUrl resolve net maxR u)) \<and>
       probed (checkUrl resolve net maxR u) ! Suc k =
         \<lparr>currentUrl = target, redirects = redirects h + 1, meth = HEAD\<rparr>)"
proof -
  let ?t = "probed (checkUrl resolve net maxR u)"
  note chain = checkUrl_chain [OF k, folded h, unfolded resp]
  have fallback: "Suc k < length ?t \<and> ?t ! Suc k = h\<lparr>meth := GET\<rparr>"
    if "status = 403 \<or> status = 405" and "meth h = HEAD"
    using chain(3) [OF loop_body_fallback [OF that]] chain(1) by simp
  have refused: "Suc k = length ?t \<and> verdict (checkUrl resolve net maxR u) =
         \<lparr>url = currentUrl h, valid = False, reason = Some (''HTTP '' @ string_of_nat status)\<rparr>"
    if "status = 403 \<or> status = 405" and "meth h = GET"
    using chain(2) [OF loop_body_refused [OF that]] by simp
  have before: "0 < k \<and> ?t ! (k - 1) = h\<lparr>meth := HEAD\<rparr>" if g: "meth h = GET"
  proof -
    have "k \<noteq> 0"
    proof
      assume "k = 0"
      with k h checkUrl_probed_0 [of resolve net maxR u] g show False by simp
    qed
    then obtain j where j: "k = Suc j" by (cases k) auto
    from checkUrl_step_back [of j resolve net maxR u] k j h
    have "loop_body resolve (net j (currentUrl (?t ! j)) (meth (?t ! j))) (?t ! j) = Continue h"
      by simp
    from loop_body_to_GET [OF this g] j show ?thesis by (cases "?t ! j") auto
  qed
  have after: "meth (?t ! Suc k) = HEAD \<and> redirects (?t ! Suc k) = redirects h + 1"
    if g: "meth h = GET" and n: "Suc k < length ?t"
  proof -
    from checkUrl_step_back [OF n] h resp
    have "loop_body resolve (Response status loc) h = Continue (?t ! Suc k)" by simp
    from loop_body_from_GET [OF this g] show ?thesis .
  qed
  have follow: "Suc k < length ?t \<and>
       ?t ! Suc k = \<lparr>currentUrl = target, redirects = redirects h + 1, meth = HEAD\<rparr>"
    if "300 \<le> status" "status < 400" "loc = Some l" "l \<noteq> []"
       "resolve l (currentUrl h) = Some target" "redirects h < maxR" for l target
    using chain(3) [of "\<lparr>currentUrl = target, redirects = redirects h + 1, meth = HEAD\<rparr>"]
      loop_body_redirect [of status l resolve h target] that by simp
  from fallback refused before after follow show ?thesis by blast
qed

text \<open>
  A run through every case: HEAD refused with 405, GET redirected, HEAD refused again at the
  new URL, GET refused with 403.
\<close>

theorem checkUrl_method_fallback_witness:
  "probed (checkUrl resolve_abs net_refusing 5 ''https://nomanssky.fandom.com/wiki/Euclid'') ! Suc 0 =
     \<lparr>currentUrl = ''https://nomanssky.fandom.com/wiki/Euclid'', redirects = 0, meth = GET\<rparr> \<and>
   probed (checkUrl resolve_abs net_refusing 5 ''https://nomanssky.fandom.com/wiki/Euclid'') ! Suc 1 =
     \<lparr>currentUrl = ''https://nomanssky.fandom.com/wiki/Moved'', redirects = 1, meth = HEAD\<rparr> \<and>
   Suc 3 = length (probed (checkUrl resolve_abs net_refusing 5 ''https://nomanssky.fandom.com/wiki/Euclid'')) \<and>
   verdict (checkUrl resolve_abs net_refusing 5 ''https://nomanssky.fandom.com/wiki/Euclid'') =
     \<lparr>url = ''https://nomanssky.fandom.com/wiki/Moved'', valid = False, reason = Some ''HTTP 403''\<rparr>"
proof -
  let ?u = "''https://nomanssky.fandom.com/wiki/Euclid''"
  let ?out = "checkUrl resolve_abs net_refusing 5 ?u"
  have first: "probed ?out ! Suc 0 =
     \<lparr>currentUrl = ''https://nomanssky.fandom.com/wiki/Euclid'', redirects = 0, meth = GET\<rparr>"
    using checkUrl_method_fallback [of 0 resolve_abs net_refusing 5 ?u "probed ?out ! 0" 405 None]
    by (simp add: ev_refusing net_refusing_def)
  have second: "probed ?out ! Suc 1 =
     \<lparr>currentUrl = ''https://nomanssky.fandom.com/wiki/Moved'', redirects = 1, meth = HEAD\<rparr>"
    using checkUrl_method_fallback [of 1 resolve_abs net_refusing 5 ?u "probed ?out ! 1" 301
        "Some ''https://nomanssky.fandom.com/wiki/Moved''"]
    by (simp add: ev_refusing net_refusing_def resolve_abs_def)
  have last: "Suc 3 = length (probed ?out) \<and> verdict ?out =
     \<lparr>url = ''https://nomanssky.fandom.com/wiki/Moved'', valid = False, reason = Some ''HTTP 403''\<rparr>"
    using checkUrl_method_fallback [of 3 resolve_abs net_refusing 5 ?u "probed ?out ! 3" 403 None]
    by (simp add: ev_refusing net_refusing_def string_of_nat.simps)
  from first second last show ?thesis by simp
qed

subsection \<open>C3: the start-time throttle\<close>



subsection \<open>C4: the concurrency limiter\<close>



subsection \<open>C5: the exit status\<close>



subsection \<open>C6: one result per record\<close>



subsection \<open>C7: the URL construction rule\<close>

text \<open>
  Claim C7. For every name, the empty one included, \<^verbatim>\<open>buildUrlFromName\<close> returns the base
  path followed by the name with every space replaced by an underscore and every other
  character unchanged. The function is a total function of the name alone.
\<close>

theorem buildUrlFromName_replaces_spaces:
  "buildUrlFromName (Some n) = BASE @ spaces_to_underscores n"
  by (rule buildUrlFromName_Some)

subsection \<open>C8: building twice\<close>

text \<open>
  Claim C8, as the code has it. \<^verbatim>\<open>buildUrlFromName\<close> replaces every space by an underscore,
  so its output has no space. Building again from the output of a first build replaces
  nothing, and puts the base path in front once more: the result is the base path followed
  by the first output. Only the replacement of spaces is idempotent.
\<close>

theorem buildUrlFromName_twice:
  "buildUrlFromName (Some n) = BASE @ spaces_to_underscores n \<and>
   CHR '' '' \<notin> set (buildUrlFromName (Some n)) \<and>
   buildUrlFromName (Some (buildUrlFromName (Some n))) = BASE @ buildUrlFromName (Some n) \<and>
   spaces_to_underscores (spaces_to_underscores n) = spaces_to_underscores n"
proof -
  have out: "CHR '' '' \<notin> set (buildUrlFromName (Some n))"
    using BASE_no_space no_space_out [of n] by (simp add: buildUrlFromName_Some)
  have again: "buildUrlFromName (Some (buildUrlFromName (Some n))) = BASE @ buildUrlFromName (Some n)"
    using space_free_fixed [OF out] by (simp add: buildUrlFromName_Some [of "buildUrlFromName (Some n)"])
  have idem: "spaces_to_underscores (spaces_to_underscores n) = spaces_to_underscores n"
    using space_free_fixed [OF no_space_out] .
  from out again idem show ?thesis by (simp add: buildUrlFromName_Some)
qed

text \<open>
  C8 as the spec states it, with the second build giving the first output back, fails for
  the name \<^verbatim>\<open>Euclid\<close>: the output of the first build has no space, and the second build is
  a different string.
\<close>

theorem buildUrlFromName_twice_counterexample:
  "CHR '' '' \<notin> set (buildUrlFromName (Some ''Euclid'')) \<and>
   buildUrlFromName (Some ''Euclid'') = ''https://nomanssky.fandom.com/wiki/Euclid'' \<and>
   buildUrlFromName (Some (buildUrlFromName (Some ''Euclid''))) =
     ''https://nomanssky.fandom.com/wiki/https://nomanssky.fandom.com/wiki/Euclid'' \<and>
   buildUrlFromName (Some (buildUrlFromName (Some ''Euclid''))) \<noteq> buildUrlFromName (Some ''Euclid'')"
  by (simp add: buildUrlFromName_def or_empty_def BASE_def)

subsection \<open>C9: the URL of an aggregated result\<close>

text \<open>
  Claim C9, as the code has it, for a batch size of at least one. In the result of record
  \<open>i\<close> the field \<^verbatim>\<open>url\<close> is the \<^verbatim>\<open>url\<close> of the object \<^verbatim>\<open>checkUrl\<close> returned, which is the
  value of \<^verbatim>\<open>currentUrl\<close> when the resolution ended, and not the URL built from the name.
  When the resolution ended with its redirect count at zero, the two are the same. The
  results printed are the first 50 of the invalid ones, taken from these results.
\<close>

theorem aggregated_url_is_final_url:
  assumes "1 \<le> batchSize" and "i < length list"
  shows "\<exists>out. main resolve maxR batchSize net (Document (Some list)) = Some out \<and>
     row_url (results (run out) ! i) =
       url (verdict (checkUrl resolve (net i) maxR (buildUrlFromName (gname (list ! i))))) \<and>
     row_url (results (run out) ! i) =
       currentUrl (final (checkUrl resolve (net i) maxR (buildUrlFromName (gname (list ! i))))) \<and>
     (redirects (final (checkUrl resolve (net i) maxR (buildUrlFromName (gname (list ! i))))) = 0
        \<longrightarrow> row_url (results (run out) ! i) = buildUrlFromName (gname (list ! i))) \<and>
     printed out = take 50 (filter (\<lambda>r. row_valid r \<noteq> Some True) (results (run out)))"
proof -
  from assms(2) have ne: "list \<noteq> []" by auto
  let ?st = "run_batch resolve maxR net (enumerate 0 list) run_init"
  let ?r = "checkUrl resolve (net i) maxR (buildUrlFromName (gname (list ! i)))"
  have u: "row_url (results ?st ! i) = url (verdict ?r)"
    using results_nth [OF assms(2), of resolve maxR net] by (simp add: aggregate_fields)
  from main_nonempty [OF assms(1) ne, of resolve maxR net] u
    checkUrl_final [of resolve "net i" maxR "buildUrlFromName (gname (list ! i))"]
  show ?thesis by simp
qed

text \<open>
  One record whose page redirects to another page: the result carries the address of the
  other page. The same record on a server that answers 200 at once: the result carries
  the built URL.
\<close>

theorem aggregated_url_is_final_url_witness:
  "(1::int) \<le> 10 \<and> 0 < length [euclid] \<and>
   (\<exists>out. main resolve_abs 5 10 net_all_moved (Document (Some [euclid])) = Some out \<and>
      row_url (results (run out) ! 0) = ''https://nomanssky.fandom.com/wiki/Moved'') \<and>
   (\<exists>out. main resolve_abs 5 10 net_all_ok (Document (Some [euclid])) = Some out \<and>
      row_url (results (run out) ! 0) = ''https://nomanssky.fandom.com/wiki/Euclid'')"
proof -
  have ten: "(1::int) \<le> 10" and pos: "0 < length [euclid]" by simp_all
  have moved: "\<exists>out. main resolve_abs 5 10 net_all_moved (Document (Some [euclid])) = Some out \<and>
      row_url (results (run out) ! 0) = ''https://nomanssky.fandom.com/wiki/Moved''"
    using aggregated_url_is_final_url [OF ten pos, of resolve_abs 5 net_all_moved]
    by (auto simp: ev_all_moved)
  have same: "\<exists>out. main resolve_abs 5 10 net_all_ok (Document (Some [euclid])) = Some out \<and>
      row_url (results (run out) ! 0) = ''https://nomanssky.fandom.com/wiki/Euclid''"
    using aggregated_url_is_final_url [OF ten pos, of resolve_abs 5 net_all_ok]
    by (auto simp: ev_all_ok ev_euclid_url)
  from ten pos moved same show ?thesis by simp
qed

text \<open>
  C9 as stated, with the reported URL equal to the built URL only when no redirect was
  followed, fails: a page that redirects to its own address and then answers 200 gives a
  result with the built URL, after one redirect.
\<close>

theorem aggregated_url_is_final_url_counterexample:
  "main resolve_abs 5 10 net_all_self (Document (Some [euclid])) =
     Some \<lparr>exit_status = 0,
           run = \<lparr>results = [\<lparr>row_id = 1, row_name = ''Euclid'',
                               row_url = ''https://nomanssky.fandom.com/wiki/Euclid'',
                               row_valid = Some True, row_reason = None\<rparr>],
                  completed = 1, progress = [1],
                  requests = [\<lparr>currentUrl = ''https://nomanssky.fandom.com/wiki/Euclid'',
                                redirects = 0, meth = HEAD\<rparr>,
                              \<lparr>currentUrl = ''https://nomanssky.fandom.com/wiki/Euclid'',
                                redirects = 1, meth = HEAD\<rparr>]\<rparr>,
           invalid = [], printed = []\<rparr> \<and>
   buildUrlFromName (gname euclid) = ''https://nomanssky.fandom.com/wiki/Euclid'' \<and>
   redirects (final (checkUrl resolve_abs (net_all_self 0) 5 (buildUrlFromName (gname euclid)))) = 1"
proof -
  have ten: "(1::int) \<le> 10" and ne: "[euclid] \<noteq> []" by simp_all
  have n: "or_empty (gname euclid) = ''Euclid''" "gid euclid = 1"
    by (simp_all add: euclid_def or_empty_def)
  from main_nonempty [OF ten ne, of resolve_abs 5 net_all_self] show ?thesis
    by (simp add: run_batch_init task_eq aggregate_fields ev_euclid_url ev_all_self n)
qed

subsection \<open>C10: a missing name\<close>



end
